theory Spec2Isabelle
  imports Main "HOL-Library.Word"
begin

section \<open>JavaScript strings and values\<close>

text \<open>
  A JavaScript string is a sequence of UTF-16 code units. The model covers the strings
  whose code units are below 256, one \<open>char\<close> per code unit; on that range
  \<open>toLowerCase\<close> maps each code unit to one code unit (A-Z and the Latin-1 capitals
  0xC0-0xDE without 0xD7 move up by 32).
\<close>

definition lowerChar :: "char \<Rightarrow> char" where
  "lowerChar c = (let n = (of_char c :: nat) in
     if (65 \<le> n \<and> n \<le> 90) \<or> (192 \<le> n \<and> n \<le> 222 \<and> n \<noteq> 215)
     then char_of (n + 32) else c)"

definition toLowerCase :: "string \<Rightarrow> string" where
  "toLowerCase s = map lowerChar s"

text \<open>The character classes of the two regular expressions of \<open>generateFunctionName\<close>:
  \<open>[a-zA-Z0-9_]\<close> and \<open>[a-z0-9_]\<close>.\<close>

definition isLowerAlnum :: "char \<Rightarrow> bool" where
  "isLowerAlnum c = (let n = (of_char c :: nat) in
     (97 \<le> n \<and> n \<le> 122) \<or> (48 \<le> n \<and> n \<le> 57))"

definition isLowerWordChar :: "char \<Rightarrow> bool" where
  "isLowerWordChar c = (isLowerAlnum c \<or> c = CHR ''_'')"

definition isWordChar :: "char \<Rightarrow> bool" where
  "isWordChar c = (let n = (of_char c :: nat) in
     isLowerWordChar c \<or> (65 \<le> n \<and> n \<le> 90))"

text \<open>\<open>s.replace(/[^...]/g, '_')\<close>: every code unit outside the class becomes an
  underscore.\<close>

definition replaceOutside :: "(char \<Rightarrow> bool) \<Rightarrow> string \<Rightarrow> string" where
  "replaceOutside keep s = map (\<lambda>c. if keep c then c else CHR ''_'') s"

text \<open>\<open>s.split(sep)\<close> for a one-character separator: the empty string splits into one
  empty piece.\<close>

fun split :: "char \<Rightarrow> string \<Rightarrow> string list" where
  "split sep [] = [[]]"
| "split sep (c # cs) =
     (if c = sep then [] # split sep cs
      else (case split sep cs of [] \<Rightarrow> [[c]] | w # ws \<Rightarrow> (c # w) # ws))"

text \<open>\<open>parts.join(sep)\<close>.\<close>

fun join :: "string \<Rightarrow> string list \<Rightarrow> string" where
  "join sep [] = []"
| "join sep [x] = x"
| "join sep (x # y # ys) = x @ sep @ join sep (y # ys)"

text \<open>\<open>s.includes(t)\<close> and \<open>s.startsWith(t)\<close>.\<close>

definition startsWith :: "string \<Rightarrow> string \<Rightarrow> bool" where
  "startsWith s t = (take (length t) s = t)"

fun strIncludes :: "string \<Rightarrow> string \<Rightarrow> bool" where
  "strIncludes [] t = (t = [])"
| "strIncludes (c # cs) t = (startsWith (c # cs) t \<or> strIncludes cs t)"

text \<open>\<open>s.replace(pat, rep)\<close> for a string pattern: the first occurrence only. (The
  replacement strings of this program come out of \<open>encodeURIComponent\<close> and hold no
  dollar sign, so no replacement pattern is ever expanded.)\<close>

fun replaceFirst :: "string \<Rightarrow> string \<Rightarrow> string \<Rightarrow> string" where
  "replaceFirst pat rep [] = (if pat = [] then rep else [])"
| "replaceFirst pat rep (c # cs) =
     (if startsWith (c # cs) pat then rep @ drop (length pat) (c # cs)
      else c # replaceFirst pat rep cs)"

text \<open>Decimal digits of a number, as template literals and \<open>String\<close> print them.\<close>

fun showNat :: "nat \<Rightarrow> string" where
  "showNat n =
     (if n < 10 then [char_of (48 + n)]
      else showNat (n div 10) @ [char_of (48 + n mod 10)])"

declare showNat.simps [simp del]

definition showInt :: "int \<Rightarrow> string" where
  "showInt i = (if i < 0 then CHR ''-'' # showNat (nat (- i)) else showNat (nat i))"

text \<open>
  Values as the program sees them at run time: what \<open>JSON.parse\<close> and the YAML reader
  produce, and \<open>undefined\<close> for a missing property. The numbers are the integers from
  \<open>-2\<^sup>5\<^sup>3\<close> to \<open>2\<^sup>5\<^sup>3 - 1\<close>, kept as a 54-bit word that \<open>sint\<close> reads: each of them is a
  double, and \<open>String\<close> prints all its digits. Other numbers are outside the model. The
  entries of an object are listed in its property enumeration order and its keys are
  distinct.
\<close>

datatype jsval =
    JUndefined
  | JNull
  | JBool bool
  | JNum "54 word"
  | JStr string
  | JArr "jsval list"
  | JObj "(string \<times> jsval) list"

text \<open>Truthiness, as \<open>if (v)\<close>, \<open>!v\<close> and \<open>v || d\<close> read it.\<close>

fun truthy :: "jsval \<Rightarrow> bool" where
  "truthy JUndefined = False"
| "truthy JNull = False"
| "truthy (JBool b) = b"
| "truthy (JNum n) = (n \<noteq> 0)"
| "truthy (JStr s) = (s \<noteq> [])"
| "truthy (JArr xs) = True"
| "truthy (JObj kvs) = True"


text \<open>Reading an own property of an object, or an entry of a \<open>Map\<close>: \<open>None\<close> when the key
  is missing.\<close>

definition objGet :: "('k \<times> 'v) list \<Rightarrow> 'k \<Rightarrow> 'v option" where
  "objGet kvs k = map_of kvs k"

text \<open>\<open>map.set(k, v)\<close> on a \<open>Map\<close>, whose entries stand in insertion order: an existing
  key keeps its place and takes the new value, a new key goes to the end.\<close>

fun mapSet :: "('k \<times> 'v) list \<Rightarrow> 'k \<Rightarrow> 'v \<Rightarrow> ('k \<times> 'v) list" where
  "mapSet [] k v = [(k, v)]"
| "mapSet ((k', v') # kvs) k v =
     (if k' = k then (k, v) # kvs else (k', v') # mapSet kvs k v)"

text \<open>The property keys that are array indices: the canonical decimal strings of the
  numbers below \<open>2\<^sup>3\<^sup>2 - 1\<close>. An object enumerates them first, in ascending order, and its
  other keys after them, in the order of their creation.\<close>

definition isDigit :: "char \<Rightarrow> bool" where
  "isDigit c = (let n = (of_char c :: nat) in 48 \<le> n \<and> n \<le> 57)"

definition decimal :: "string \<Rightarrow> nat" where
  "decimal s = foldl (\<lambda>acc c. 10 * acc + (of_char c - 48)) 0 s"

definition arrayIndex :: "string \<Rightarrow> nat option" where
  "arrayIndex k =
     (if k \<noteq> [] \<and> list_all isDigit k \<and> (length k = 1 \<or> hd k \<noteq> CHR ''0'') \<and>
         decimal k < 4294967295
      then Some (decimal k) else None)"

fun insertIndex :: "nat \<Rightarrow> string \<Rightarrow> 'v \<Rightarrow> (string \<times> 'v) list \<Rightarrow> (string \<times> 'v) list" where
  "insertIndex i k v [] = [(k, v)]"
| "insertIndex i k v ((k', v') # kvs) =
     (case arrayIndex k' of
        Some j \<Rightarrow> if j < i then (k', v') # insertIndex i k v kvs else (k, v) # (k', v') # kvs
      | None \<Rightarrow> (k, v) # (k', v') # kvs)"

text \<open>
  Writing a property of an object that the program made with \<open>{}\<close>: \<open>obj[k] = v\<close>. An
  existing key keeps its place and takes the new value; a new key takes its place in
  the enumeration order. The key \<open>__proto__\<close> is the one name under which
  \<open>Object.prototype\<close> has a setter: the write goes to that setter and makes no entry (it
  replaces the prototype of the object when \<open>v\<close> is an object or \<open>null\<close>; the prototype is
  not part of the model, which keeps the own entries).
\<close>

definition objSet :: "(string \<times> 'v) list \<Rightarrow> string \<Rightarrow> 'v \<Rightarrow> (string \<times> 'v) list" where
  "objSet kvs k v =
     (if k = ''__proto__'' then kvs
      else if k \<in> set (map fst kvs) then mapSet kvs k v
      else case arrayIndex k of
             Some i \<Rightarrow> insertIndex i k v kvs
           | None \<Rightarrow> kvs @ [(k, v)])"

text \<open>\<open>v.k\<close> on a value that is not \<open>null\<close> or \<open>undefined\<close>, and \<open>v?.k\<close> on any
  value, for the schema keywords the program reads (none of them is a property of a
  string, a number, a boolean or an array).\<close>

fun getProp :: "jsval \<Rightarrow> string \<Rightarrow> jsval" where
  "getProp (JObj kvs) k = (case objGet kvs k of Some v \<Rightarrow> v | None \<Rightarrow> JUndefined)"
| "getProp v k = JUndefined"

text \<open>\<open>String(v)\<close>.\<close>

fun jsString :: "jsval \<Rightarrow> string" where
  "jsString JUndefined = ''undefined''"
| "jsString JNull = ''null''"
| "jsString (JBool b) = (if b then ''true'' else ''false'')"
| "jsString (JNum n) = showInt (sint n)"
| "jsString (JStr s) = s"
| "jsString (JArr xs) =
     join '','' (map (\<lambda>x. if x = JNull \<or> x = JUndefined then [] else jsString x) xs)"
| "jsString (JObj kvs) = ''[object Object]''"

text \<open>Errors are values: \<open>throw new Error(msg)\<close> is \<open>Inl (Error msg)\<close>, and the
  \<open>TypeError\<close> of the \<open>in\<close> operator on a value that is not an object is
  \<open>Inl (TypeError msg)\<close>.\<close>

datatype error = Error string | TypeError string

text \<open>\<open>'$ref' in v\<close>: defined on objects and arrays, a \<open>TypeError\<close> on everything
  else.\<close>

fun hasRef :: "jsval \<Rightarrow> error + bool" where
  "hasRef (JObj kvs) = Inr (objGet kvs ''$ref'' \<noteq> None)"
| "hasRef (JArr xs) = Inr False"
| "hasRef v = Inl (TypeError ''Cannot use the in operator to search for $ref'')"

section \<open>Loops that can throw\<close>

text \<open>\<open>xs.forEach(x => ...)\<close> and \<open>for (... in ...)\<close> over a state that the body updates: the
  first exception ends the loop and is the result.\<close>

fun forEachE :: "('a \<Rightarrow> 's \<Rightarrow> error + 's) \<Rightarrow> 'a list \<Rightarrow> 's \<Rightarrow> error + 's" where
  "forEachE f [] s = Inr s"
| "forEachE f (x # xs) s = (case f x s of Inl e \<Rightarrow> Inl e | Inr s' \<Rightarrow> forEachE f xs s')"

lemma forEachE_cong [fundef_cong]:
  "xs = ys \<Longrightarrow> s = t \<Longrightarrow> (\<And>x a. x \<in> set ys \<Longrightarrow> f x a = g x a)
   \<Longrightarrow> forEachE f xs s = forEachE g ys t"
proof (induction ys arbitrary: xs s t)
  case Nil
  then show ?case by simp
next
  case (Cons y ys)
  then show ?case by (auto split: sum.splits)
qed

section \<open>The type mapper\<close>

text \<open>The validating type descriptors the adapter builds with the zod library; each
  constructor stands for the zod call of the same name (\<open>ZInt\<close> for
  \<open>z.number().int()\<close>, \<open>ZDatetime\<close> for \<open>z.string().datetime()\<close>, \<open>ZCatchall t c\<close> for
  \<open>t.catchall(c)\<close>). None of these calls throws when the descriptor is built.\<close>

datatype zod =
    ZAny
  | ZString
  | ZEnum jsval
  | ZDatetime
  | ZDate
  | ZBase64
  | ZInt
  | ZNumber
  | ZBoolean
  | ZArray zod
  | ZObject "(string \<times> zod) list"
  | ZCatchall zod zod
  | ZRecord zod zod
  | ZOptional zod
  | ZDescribe zod string

text \<open>The keys and values \<open>for (const k in v)\<close> visits: the entries of an object, the
  indices of an array or of a string (whose elements are one-character strings), and
  nothing on the other values.\<close>

fun forInEntries :: "jsval \<Rightarrow> (string \<times> jsval) list" where
  "forInEntries (JObj kvs) = kvs"
| "forInEntries (JArr xs) = zip (map showNat [0..<length xs]) xs"
| "forInEntries (JStr s) = zip (map showNat [0..<length s]) (map (\<lambda>c. JStr [c]) s)"
| "forInEntries v = []"

text \<open>\<open>typeof v === 'object'\<close>.\<close>

fun typeofObject :: "jsval \<Rightarrow> bool" where
  "typeofObject JNull = True"
| "typeofObject (JArr xs) = True"
| "typeofObject (JObj kvs) = True"
| "typeofObject v = False"

text \<open>
  \<open>openApiTypeToZod(schema)\<close>. The schema node is the run-time value: the declared type
  \<open>OpenAPIV3.SchemaObject\<close> is a cast on parsed JSON and checks nothing. The \<open>in\<close>
  operator of \<^verbatim>\<open>'$ref' in schema.items\<close>, \<^verbatim>\<open>'$ref' in propSchema\<close> and
  \<^verbatim>\<open>'$ref' in schema.additionalProperties\<close> throws on a value that is not an object.
\<close>

function openApiTypeToZod :: "jsval \<Rightarrow> error + zod" where
  "openApiTypeToZod schema =
    (if \<not> truthy schema then Inr ZAny
     else if getProp schema ''type'' = JStr ''string'' then
       (if truthy (getProp schema ''enum'') then Inr (ZEnum (getProp schema ''enum''))
        else if getProp schema ''format'' = JStr ''date-time'' then Inr ZDatetime
        else if getProp schema ''format'' = JStr ''date'' then Inr ZDate
        else if getProp schema ''format'' = JStr ''byte'' then Inr ZBase64
        else if getProp schema ''format'' = JStr ''binary'' then Inr ZAny
        else Inr ZString)
     else if getProp schema ''type'' = JStr ''integer'' then Inr ZInt
     else if getProp schema ''type'' = JStr ''number'' then Inr ZNumber
     else if getProp schema ''type'' = JStr ''boolean'' then Inr ZBoolean
     else if getProp schema ''type'' = JStr ''array'' then
       (if truthy (getProp schema ''items'') then
          (case hasRef (getProp schema ''items'') of
             Inl e \<Rightarrow> Inl e
           | Inr r \<Rightarrow>
               if r then Inr (ZArray ZAny)
               else (case openApiTypeToZod (getProp schema ''items'') of
                       Inl e \<Rightarrow> Inl e
                     | Inr itemSchema \<Rightarrow> Inr (ZArray itemSchema)))
        else Inr (ZArray ZAny))
     else if getProp schema ''type'' = JStr ''object'' then
       (if truthy (getProp schema ''properties'') then
          (case forEachE
                  (\<lambda>entry shape.
                     case hasRef (snd entry) of
                       Inl e \<Rightarrow> Inl e
                     | Inr r \<Rightarrow>
                         if r then Inr (objSet shape (fst entry) ZAny)
                         else (case openApiTypeToZod (snd entry) of
                                 Inl e \<Rightarrow> Inl e
                               | Inr z \<Rightarrow> Inr (objSet shape (fst entry) z)))
                  (forInEntries (getProp schema ''properties'')) [] of
             Inl e \<Rightarrow> Inl e
           | Inr shape \<Rightarrow>
               if getProp schema ''additionalProperties'' = JBool True
               then Inr (ZCatchall (ZObject shape) ZAny)
               else if typeofObject (getProp schema ''additionalProperties'') then
                 (case hasRef (getProp schema ''additionalProperties'') of
                    Inl e \<Rightarrow> Inl e
                  | Inr r \<Rightarrow>
                      if r then Inr (ZObject shape)
                      else (case openApiTypeToZod (getProp schema ''additionalProperties'') of
                              Inl e \<Rightarrow> Inl e
                            | Inr z \<Rightarrow> Inr (ZCatchall (ZObject shape) z)))
               else Inr (ZObject shape))
        else if truthy (getProp schema ''additionalProperties'')
        then Inr (ZRecord ZString ZAny)
        else Inr (ZObject []))
     else Inr ZAny)"
  by pat_completeness auto

lemma size_map_of:
  "map_of kvs k = Some v \<Longrightarrow> size v < Suc (size_list (size_prod (\<lambda>_. 0) size) kvs)"
  by (induction kvs) (auto split: if_splits)

lemma size_getProp: "getProp s k \<noteq> JUndefined \<Longrightarrow> size (getProp s k) < size s"
  by (cases s) (auto simp: objGet_def split: option.splits dest: size_map_of)

lemma size_getProp_truthy: "truthy (getProp s k) \<Longrightarrow> size (getProp s k) < size s"
  by (rule size_getProp) auto

lemma size_forInEntries:
  "(k, v) \<in> set (forInEntries p) \<Longrightarrow> hasRef v = Inr r \<Longrightarrow> size v < size p"
proof (cases p)
  case (JObj kvs)
  assume "(k, v) \<in> set (forInEntries p)"
  with JObj have "(k, v) \<in> set kvs" by simp
  then have "size v < Suc (size_list (size_prod (\<lambda>_. 0) size) kvs)"
    by (induction kvs) auto
  with JObj show ?thesis by simp
next
  case (JArr xs)
  assume "(k, v) \<in> set (forInEntries p)"
  with JArr have "v \<in> set xs" by (auto dest: set_zip_rightD)
  then have "size v < Suc (size_list size xs)"
    by (induction xs) auto
  with JArr show ?thesis by simp
next
  case (JStr s)
  assume "(k, v) \<in> set (forInEntries p)" "hasRef v = Inr r"
  with JStr show ?thesis by (auto dest!: set_zip_rightD)
qed auto

termination openApiTypeToZod
proof (relation "measure size", goal_cases)
  case 1
  show ?case by simp
next
  case (2 schema r)
  then show ?case by (simp add: size_getProp_truthy)
next
  case (3 schema entry shape r)
  have "size (snd entry) < size (getProp schema ''properties'')"
    using 3 size_forInEntries [of "fst entry" "snd entry"] by simp
  moreover have "size (getProp schema ''properties'') < size schema"
    using 3 by (simp add: size_getProp_truthy)
  ultimately show ?case by simp
next
  case (4 schema shape r)
  have "getProp schema ''additionalProperties'' \<noteq> JUndefined"
    using 4 by auto
  then show ?case by (simp add: size_getProp)
qed

declare openApiTypeToZod.simps [simp del]

section \<open>The OpenAPI document\<close>

record ParameterObject =
  param_name :: string
  param_in :: string
  param_description :: "string option"
  param_required :: "bool option"
  param_schema :: jsval

datatype param_or_ref = ParamRef string | Param ParameterObject

record MediaTypeObject =
  media_schema :: jsval

record RequestBodyObject =
  rb_description :: "string option"
  rb_content :: "(string \<times> MediaTypeObject) list option"
  rb_required :: "bool option"

datatype requestBody_or_ref = RequestBodyRef string | RequestBody RequestBodyObject

datatype response_or_ref =
    ResponseRef string
  | Response "(string \<times> MediaTypeObject) list option"

record OperationObject =
  operationId :: "string option"
  summary :: "string option"
  op_description :: "string option"
  op_parameters :: "param_or_ref list option"
  requestBody :: "requestBody_or_ref option"
  responses :: "(string \<times> response_or_ref) list option"



section \<open>The adapter: tool names\<close>

text \<open>
  \<^verbatim>\<open>if (operation.operationId) return operation.operationId.replace(/[^a-zA-Z0-9_]/g, '_');\<close>
  \<^verbatim>\<open>const pathParts = path.toLowerCase().replace(/[^a-z0-9_]/g, '_').split('_').filter(p => p);\<close>
  \<^verbatim>\<open>return `${method.toLowerCase()}_${pathParts.join('_')}`;\<close>
  An empty \<open>operationId\<close> is falsy and takes the second branch.
\<close>

definition pathParts :: "string \<Rightarrow> string list" where
  "pathParts path =
     filter (\<lambda>p. p \<noteq> []) (split (CHR ''_'') (replaceOutside isLowerWordChar (toLowerCase path)))"

definition generateFunctionName :: "string \<Rightarrow> string \<Rightarrow> 'a OperationObject_scheme \<Rightarrow> string" where
  "generateFunctionName httpMethod path operation =
     (case operationId operation of
        Some oid \<Rightarrow>
          if oid \<noteq> [] then replaceOutside isWordChar oid
          else toLowerCase httpMethod @ ''_'' @ join ''_'' (pathParts path)
      | None \<Rightarrow> toLowerCase httpMethod @ ''_'' @ join ''_'' (pathParts path))"

section \<open>The adapter: parameters\<close>

text \<open>\<open>MCPParameter\<close> of \<^verbatim>\<open>types.ts\<close>. \<open>p_type\<close> holds whatever \<open>schema?.type || 'any'\<close>
  evaluates to; \<open>p_in\<close> is \<open>param.in\<close> as the document gives it.\<close>

record MCPParameter =
  p_name :: string
  p_description :: "string option"
  p_type :: jsval
  p_required :: bool
  p_schema :: jsval
  p_in :: "string option"

text \<open>What the console receives.\<close>

datatype logline = Log string | Warn string | ErrorLog string








section \<open>The adapter: tool definitions\<close>

record OriginalOperationDetails =
  od_method :: string
  od_path :: string
  od_parameters :: "MCPParameter list"
  od_consumes :: "string list option"
  od_produces :: "string list option"












section \<open>The request executor: platform\<close>

type_synonym byte = "8 word"

text \<open>\<open>buffer.toString('base64')\<close>: RFC 4648 with padding.\<close>

definition base64Alphabet :: string where
  "base64Alphabet = ''ABCDEFGHIJKLMNOPQRSTUVWXYZabcdefghijklmnopqrstuvwxyz0123456789+/''"

definition base64Char :: "nat \<Rightarrow> char" where
  "base64Char i = base64Alphabet ! (i mod 64)"

fun toBase64 :: "byte list \<Rightarrow> string" where
  "toBase64 [] = []"
| "toBase64 [a] =
     [base64Char (unat a div 4), base64Char (unat a mod 4 * 16), CHR ''='', CHR ''='']"
| "toBase64 [a, b] =
     [base64Char (unat a div 4), base64Char (unat a mod 4 * 16 + unat b div 16),
      base64Char (unat b mod 16 * 4), CHR ''='']"
| "toBase64 (a # b # c # rest) =
     [base64Char (unat a div 4), base64Char (unat a mod 4 * 16 + unat b div 16),
      base64Char (unat b mod 16 * 4 + unat c div 64), base64Char (unat c mod 64)]
     @ toBase64 rest"

text \<open>\<open>encodeURIComponent(s)\<close> on code units below 256: the unreserved characters stay,
  every other one is percent-encoded as its UTF-8 bytes (one byte below 128, two from
  128 on).\<close>

definition isUnreserved :: "char \<Rightarrow> bool" where
  "isUnreserved c = (isWordChar c \<or> c \<in> set ''-.!~*()'' \<or> c = CHR 0x27)"

definition hexDigit :: "nat \<Rightarrow> char" where
  "hexDigit d = ''0123456789ABCDEF'' ! (d mod 16)"

definition percentByte :: "nat \<Rightarrow> string" where
  "percentByte n = [CHR ''%'', hexDigit (n div 16), hexDigit n]"

definition encodeChar :: "char \<Rightarrow> string" where
  "encodeChar c = (let n = (of_char c :: nat) in
     if isUnreserved c then [c]
     else if n < 128 then percentByte n
     else percentByte (192 + n div 64) @ percentByte (128 + n mod 64))"

definition encodeURIComponent :: "string \<Rightarrow> string" where
  "encodeURIComponent s = concat (map encodeChar s)"

text \<open>What the program hands to axios as \<open>config.data\<close>: a value, or the \<open>Buffer\<close> made
  from a base64 string.\<close>

datatype payload = Value jsval | Buffer "byte list"

datatype responseType = Json | Arraybuffer

record AxiosConfig =
  cfg_method :: string
  cfg_url :: string
  cfg_headers :: "(string \<times> string) list"
  cfg_params :: "(string \<times> jsval) list"
  cfg_data :: payload
  cfg_responseType :: responseType

text \<open>An upstream response: the status, the headers (axios gives their names in lower
  case) and the bytes of the body.\<close>

record AxiosResponse =
  resp_status :: nat
  resp_headers :: "(string \<times> string) list"
  resp_body :: "byte list"

text \<open>What axios throws: \<open>err_response\<close> is \<open>None\<close> when no response arrived.\<close>

record AxiosError =
  err_message :: string
  err_response :: "AxiosResponse option"

text \<open>\<open>response.data\<close>: the parsed body under \<open>responseType: 'json'\<close>, the bytes under
  \<open>'arraybuffer'\<close>.\<close>

datatype responseData = Parsed jsval | Raw "byte list"

text \<open>
  The library calls the executor makes, as parameters:
  \<^item> \<open>axios\<close>: the HTTP call, which returns a response or throws;
  \<^item> \<open>bufferFromBase64\<close>: \<open>Buffer.from(value, 'base64')\<close>, \<open>None\<close> when it throws;
  \<^item> \<open>parseBody\<close>: the value axios makes of a body under \<open>responseType: 'json'\<close>;
  \<^item> \<open>jsonStringify\<close>: \<open>JSON.stringify\<close>, \<open>None\<close> when it throws.
\<close>

record platform =
  axios :: "AxiosConfig \<Rightarrow> AxiosError + AxiosResponse"
  bufferFromBase64 :: "string \<Rightarrow> byte list option"
  parseBody :: "byte list \<Rightarrow> jsval"
  jsonStringify :: "responseData \<Rightarrow> string option"

text \<open>What one call does to the outside: console lines and HTTP requests, in order.\<close>

datatype event = Console logline | HttpRequest AxiosConfig

text \<open>As \<^const>\<open>forEachE\<close>, keeping the state the loop had reached when the body threw.\<close>

fun forEachS :: "('a \<Rightarrow> 's \<Rightarrow> error + 's) \<Rightarrow> 'a list \<Rightarrow> 's \<Rightarrow> 's \<times> error option" where
  "forEachS f [] s = (s, None)"
| "forEachS f (x # xs) s = (case f x s of Inl e \<Rightarrow> (s, Some e) | Inr s' \<Rightarrow> forEachS f xs s')"

section \<open>The request executor\<close>

text \<open>The local variables of \<open>executeApiCall\<close> that the parameter loop updates, and the
  console.\<close>

record callState =
  cs_headers :: "(string \<times> string) list"
  cs_queryParams :: "(string \<times> jsval) list"
  cs_requestBody :: payload
  cs_urlPath :: string
  cs_log :: "logline list"

text \<open>\<open>mcpArgs[paramDef.name]\<close>, for parameter names that \<open>Object.prototype\<close> does not
  define.\<close>

definition argValue :: "(string \<times> jsval) list \<Rightarrow> string \<Rightarrow> jsval" where
  "argValue mcpArgs k = (case objGet mcpArgs k of Some v \<Rightarrow> v | None \<Rightarrow> JUndefined)"

text \<open>\<open>xs?.[0] || d\<close>.\<close>

definition firstOr :: "string list option \<Rightarrow> string \<Rightarrow> string" where
  "firstOr xs d = (case xs of Some (x # rest) \<Rightarrow> if x \<noteq> [] then x else d | _ \<Rightarrow> d)"

text \<open>
  \<^verbatim>\<open>paramDef.schema?.format === 'binary' ||\<close>
  \<^verbatim>\<open>paramDef.schema?.type === 'string' && paramDef.schema?.format === 'binary'\<close>
\<close>

definition isBinarySchema :: "jsval \<Rightarrow> bool" where
  "isBinarySchema s =
     (getProp s ''format'' = JStr ''binary'' \<or>
      (getProp s ''type'' = JStr ''string'' \<and> getProp s ''format'' = JStr ''binary''))"

text \<open>The body of \<open>parameters.forEach\<close>.\<close>

definition processParam ::
  "'e platform_scheme \<Rightarrow> (string \<times> jsval) list \<Rightarrow> MCPParameter \<Rightarrow> callState
   \<Rightarrow> error + callState" where
  "processParam env mcpArgs paramDef st =
     (let v = argValue mcpArgs (p_name paramDef)
      in if v = JUndefined then
           (if p_required paramDef
            then Inl (Error (''Missing required parameter: '' @ p_name paramDef))
            else Inr st)
         else if p_in paramDef = Some ''path'' then
           Inr (st\<lparr>cs_urlPath :=
                  replaceFirst (''{'' @ p_name paramDef @ ''}'')
                    (encodeURIComponent (jsString v)) (cs_urlPath st)\<rparr>)
         else if p_in paramDef = Some ''query'' then
           Inr (st\<lparr>cs_queryParams := objSet (cs_queryParams st) (p_name paramDef) v\<rparr>)
         else if p_in paramDef = Some ''header'' then
           Inr (st\<lparr>cs_headers := objSet (cs_headers st) (p_name paramDef) (jsString v)\<rparr>)
         else if p_in paramDef = Some ''body'' then
           (if isBinarySchema (p_schema paramDef) then
              (let hs = objSet (cs_headers st) ''Content-Type'' ''application/octet-stream''
               in case v of
                    JStr s \<Rightarrow>
                      (case bufferFromBase64 env s of
                         Some bytes \<Rightarrow>
                           Inr (st\<lparr>cs_requestBody := Buffer bytes, cs_headers := hs\<rparr>)
                       | None \<Rightarrow>
                           Inr (st\<lparr>cs_requestBody := Value v, cs_headers := hs,
                                   cs_log := cs_log st @
                                     [Warn (''Failed to decode base64 for parameter '' @
                                            p_name paramDef @ ''. Sending as string.'')]\<rparr>))
                  | _ \<Rightarrow> Inr (st\<lparr>cs_requestBody := Value v, cs_headers := hs\<rparr>))
            else Inr (st\<lparr>cs_requestBody := Value v\<rparr>))
         else Inr st)"

text \<open>The state before the loop: the \<open>Accept\<close> header, and the \<open>Content-Type\<close> header when
  some parameter is a body parameter.\<close>

definition initialState :: "'o OriginalOperationDetails_scheme \<Rightarrow> callState" where
  "initialState operationDetails =
     \<lparr>cs_headers =
        (let hs = [(''Accept'', firstOr (od_produces operationDetails) ''application/json'')]
         in case find (\<lambda>p. p_in p = Some ''body'') (od_parameters operationDetails) of
              Some bodyParam \<Rightarrow>
                objSet hs ''Content-Type'' (firstOr (od_consumes operationDetails) ''application/json'')
            | None \<Rightarrow> hs),
      cs_queryParams = [],
      cs_requestBody = Value JUndefined,
      cs_urlPath = od_path operationDetails,
      cs_log = []\<rparr>"

text \<open>
  \<^verbatim>\<open>const acceptHeader = headers['Accept']?.toLowerCase();\<close>
  \<^verbatim>\<open>acceptHeader?.includes('json') || acceptHeader?.includes('*/*') || !acceptHeader\<close>
\<close>

definition isJsonExpected :: "(string \<times> string) list \<Rightarrow> bool" where
  "isJsonExpected hs =
     (case objGet hs ''Accept'' of
        None \<Rightarrow> True
      | Some a \<Rightarrow>
          strIncludes (toLowerCase a) ''json'' \<or> strIncludes (toLowerCase a) ''*/*'' \<or>
          toLowerCase a = [])"

text \<open>The target URL and the axios configuration, from the state the loop leaves.\<close>

definition buildConfig ::
  "string \<Rightarrow> 'o OriginalOperationDetails_scheme \<Rightarrow> callState \<Rightarrow> AxiosConfig" where
  "buildConfig apiBaseUrl operationDetails st =
     (let baseUrl = (if apiBaseUrl \<noteq> [] \<and> last apiBaseUrl = CHR ''/''
                     then butlast apiBaseUrl else apiBaseUrl);
          targetUrl = baseUrl @ (if startsWith (cs_urlPath st) ''/''
                                 then cs_urlPath st else ''/'' @ cs_urlPath st)
      in \<lparr>cfg_method = od_method operationDetails,
          cfg_url = targetUrl,
          cfg_headers = cs_headers st,
          cfg_params = cs_queryParams st,
          cfg_data = cs_requestBody st,
          cfg_responseType = (if isJsonExpected (cs_headers st) then Json else Arraybuffer)\<rparr>)"

definition dataOf :: "'e platform_scheme \<Rightarrow> responseType \<Rightarrow> AxiosResponse \<Rightarrow> responseData" where
  "dataOf env rt response =
     (case rt of
        Json \<Rightarrow> Parsed (parseBody env (resp_body response))
      | Arraybuffer \<Rightarrow> Raw (resp_body response))"

text \<open>\<open>if (responseData)\<close>: a \<open>Buffer\<close> is an object and always truthy.\<close>

fun dataTruthy :: "responseData \<Rightarrow> bool" where
  "dataTruthy (Parsed v) = truthy v"
| "dataTruthy (Raw bytes) = True"

text \<open>The detail string of the \<open>catch\<close> block.\<close>

definition failureDetail :: "'e platform_scheme \<Rightarrow> responseType \<Rightarrow> AxiosError \<Rightarrow> string" where
  "failureDetail env rt err =
     (case err_response err of
        None \<Rightarrow> ''Status: N/A''
      | Some response \<Rightarrow>
          (let detail = ''Status: '' @
                 (if resp_status response \<noteq> 0 then showNat (resp_status response) else ''N/A'');
               responseData = dataOf env rt response;
               stringified =
                 (case jsonStringify env responseData of
                    Some js \<Rightarrow> detail @ '', Data: '' @ js
                  | None \<Rightarrow> detail @ '', Data: [Could not stringify response data]'')
           in if dataTruthy responseData then
                (case objGet (resp_headers response) ''content-type'' of
                   Some ct \<Rightarrow>
                     if ct \<noteq> [] \<and> \<not> strIncludes ct ''json''
                     then detail @ '', Content-Type: '' @ ct
                     else stringified
                 | None \<Rightarrow> stringified)
              else detail))"

text \<open>\<open>executeApiCall(apiBaseUrl, operationDetails, mcpArgs)\<close>: what it did, and the value it
  returns or the error it throws. \<open>sendRequest\<close> is the function from its second statement
  on, where \<open>apiBaseUrl\<close> is a non-empty string.\<close>

definition sendRequest ::
  "'e platform_scheme \<Rightarrow> string \<Rightarrow> 'o OriginalOperationDetails_scheme
   \<Rightarrow> (string \<times> jsval) list \<Rightarrow> event list \<times> (error + jsval)" where
  "sendRequest env apiBaseUrl operationDetails mcpArgs =
     (case forEachS (processParam env mcpArgs) (od_parameters operationDetails)
             (initialState operationDetails) of
        (st, Some e) \<Rightarrow> (map Console (cs_log st), Inl e)
      | (st, None) \<Rightarrow>
          (let config = buildConfig apiBaseUrl operationDetails st;
               before = map Console (cs_log st) @
                 [Console (Log (''Executing API call: '' @ cfg_method config @ '' '' @ cfg_url config)),
                  HttpRequest config]
           in case axios env config of
                Inr response \<Rightarrow>
                  (before @
                     [Console (Log (''API call successful ('' @ showNat (resp_status response) @
                        '') for '' @ od_method operationDetails @ '' '' @ od_path operationDetails))],
                   Inr (if cfg_responseType config = Arraybuffer
                        then JObj [(''_isBinary'', JBool True),
                                   (''contentType'',
                                      (case objGet (resp_headers response) ''content-type'' of
                                         Some ct \<Rightarrow> JStr ct
                                       | None \<Rightarrow> JUndefined)),
                                   (''data'', JStr (toBase64 (resp_body response)))]
                        else parseBody env (resp_body response)))
              | Inl err \<Rightarrow>
                  (before @
                     [Console (ErrorLog (''API call failed for '' @ od_method operationDetails @
                        '' '' @ od_path operationDetails @ '': '' @ err_message err))],
                   Inl (Error (''API call failed. '' @
                          failureDetail env (cfg_responseType config) err)))))"

definition executeApiCall ::
  "'e platform_scheme \<Rightarrow> string option \<Rightarrow> 'o OriginalOperationDetails_scheme
   \<Rightarrow> (string \<times> jsval) list \<Rightarrow> event list \<times> (error + jsval)" where
  "executeApiCall env apiBaseUrl operationDetails mcpArgs =
     (case apiBaseUrl of
        None \<Rightarrow> ([], Inl (Error ''API base URL is not configured. Cannot execute API call.''))
      | Some base \<Rightarrow>
          if base = []
          then ([], Inl (Error ''API base URL is not configured. Cannot execute API call.''))
          else sendRequest env base operationDetails mcpArgs)"

section \<open>Properties of the tool names\<close>

lemma split_not_Nil: "split sep s \<noteq> []"
  by (induction s) (auto split: list.splits)

lemma split_chars: "w \<in> set (split sep s) \<Longrightarrow> c \<in> set w \<Longrightarrow> c \<in> set s \<and> c \<noteq> sep"
proof (induction s arbitrary: w)
  case Nil
  then show ?case by simp
next
  case (Cons a s)
  show ?case
  proof (cases "a = sep")
    case True
    with Cons show ?thesis by auto
  next
    case False
    obtain v vs where sp: "split sep s = v # vs"
      using split_not_Nil [of sep s] by (cases "split sep s") auto
    with False Cons.prems have "w = a # v \<or> w \<in> set vs" by simp
    then show ?thesis
    proof
      assume "w = a # v"
      with Cons.prems(2) have "c = a \<or> c \<in> set v" by simp
      then show ?thesis
        using False Cons.IH [of v] sp by auto
    next
      assume "w \<in> set vs"
      then show ?thesis using Cons.IH [of w] Cons.prems(2) sp by auto
    qed
  qed
qed

lemma replaceOutside_chars:
  "c \<in> set (replaceOutside isLowerWordChar s) \<Longrightarrow> isLowerWordChar c"
  by (auto simp: replaceOutside_def isLowerWordChar_def split: if_splits)

lemma pathParts_segments:
  "seg \<in> set (pathParts path) \<Longrightarrow> seg \<noteq> [] \<and> (\<forall>c \<in> set seg. isLowerAlnum c)"
proof -
  assume a: "seg \<in> set (pathParts path)"
  let ?s = "replaceOutside isLowerWordChar (toLowerCase path)"
  from a have ne: "seg \<noteq> []" and mem: "seg \<in> set (split (CHR ''_'') ?s)"
    by (auto simp: pathParts_def)
  have "isLowerAlnum c" if "c \<in> set seg" for c
  proof -
    from split_chars [OF mem that] have "c \<in> set ?s" "c \<noteq> CHR ''_''" by auto
    with replaceOutside_chars [of c] show ?thesis by (auto simp: isLowerWordChar_def)
  qed
  with ne show ?thesis by blast
qed

lemma pets_name: "toLowerCase ''GET'' @ ''_'' @ join ''_'' (pathParts ''/Pets/{petId}'') = ''get_pets_petid''"
  by code_simp

definition plainOperation :: OperationObject where
  "plainOperation = \<lparr>operationId = None, summary = None, op_description = None,
     op_parameters = None, requestBody = None, responses = None\<rparr>"


definition emptyIdOperation :: OperationObject where
  "emptyIdOperation = plainOperation\<lparr>operationId := Some []\<rparr>"

text \<open>
  Claim C3, as the code has it. An operation without an \<open>operationId\<close> is named by the
  lower-cased method, an underscore, and the non-empty pieces that splitting the
  lower-cased, sanitized path at underscores leaves, joined by underscores. Every such
  piece is non-empty and holds only characters of \<open>[a-z0-9]\<close>, so the name of
  \<open>GET /Pets/{petId}\<close> is \<open>get_pets_petid\<close>: the empty pieces around the slashes
  and braces are filtered out.
\<close>

theorem C3_path_based_name:
  assumes "operationId operation = None"
  shows "generateFunctionName httpMethod path operation =
           toLowerCase httpMethod @ ''_'' @
           join ''_'' (filter (\<lambda>p. p \<noteq> [])
             (split (CHR ''_'') (replaceOutside isLowerWordChar (toLowerCase path))))
         \<and> (\<forall>seg \<in> set (pathParts path). seg \<noteq> [] \<and> (\<forall>c \<in> set seg. isLowerAlnum c))
         \<and> generateFunctionName ''GET'' ''/Pets/{petId}'' operation = ''get_pets_petid''"
proof (intro conjI)
  show "generateFunctionName httpMethod path operation =
           toLowerCase httpMethod @ ''_'' @
           join ''_'' (filter (\<lambda>p. p \<noteq> [])
             (split (CHR ''_'') (replaceOutside isLowerWordChar (toLowerCase path))))"
    using assms by (simp add: generateFunctionName_def pathParts_def)
  show "\<forall>seg \<in> set (pathParts path). seg \<noteq> [] \<and> (\<forall>c \<in> set seg. isLowerAlnum c)"
    using pathParts_segments by blast
  have "generateFunctionName ''GET'' ''/Pets/{petId}'' operation =
          toLowerCase ''GET'' @ ''_'' @ join ''_'' (pathParts ''/Pets/{petId}'')"
    using assms by (simp only: generateFunctionName_def option.case)
  then show "generateFunctionName ''GET'' ''/Pets/{petId}'' operation = ''get_pets_petid''"
    by (simp only: pets_name)
qed

text \<open>Claim C3, witness: an operation without an \<open>operationId\<close>, at two paths.\<close>

theorem C3_path_based_name_witness:
  "operationId plainOperation = None \<and>
   generateFunctionName ''POST'' ''/Store/Order-Items'' plainOperation = ''post_store_order_items'' \<and>
   generateFunctionName ''GET'' ''/Pets/{petId}'' plainOperation = ''get_pets_petid''"
proof -
  have h: "operationId plainOperation = None" by (simp add: plainOperation_def)
  have e: "toLowerCase ''POST'' @ ''_'' @
           join ''_'' (filter (\<lambda>p. p \<noteq> [])
             (split (CHR ''_'') (replaceOutside isLowerWordChar (toLowerCase ''/Store/Order-Items''))))
           = ''post_store_order_items''"
    by code_simp
  from C3_path_based_name [OF h, of "''POST''" "''/Store/Order-Items''"] h e
  show ?thesis by (simp only: simp_thms)
qed

text \<open>Claim C3, counterexample to the example as the specification words it: the name
  of \<open>GET /Pets/{petId}\<close> is not \<open>get_pets__petid_\<close>.\<close>

theorem C3_example_counterexample:
  "generateFunctionName ''GET'' ''/Pets/{petId}'' plainOperation \<noteq> ''get_pets__petid_''"
  by code_simp

text \<open>
  Claim C8, as the code has it. An operation whose \<open>operationId\<close> is a non-empty string is
  named by that string with every character outside \<open>[A-Za-z0-9_]\<close> replaced by an
  underscore.
\<close>

theorem C8_operationId_name:
  assumes "operationId operation = Some oid" and "oid \<noteq> []"
  shows "generateFunctionName httpMethod path operation =
           map (\<lambda>c. if isWordChar c then c else CHR ''_'') oid"
  using assms by (simp add: generateFunctionName_def replaceOutside_def)

text \<open>Claim C8, witness: the \<open>operationId\<close> \<open>pets.list-all\<close>.\<close>

theorem C8_operationId_name_witness:
  "operationId (plainOperation\<lparr>operationId := Some ''pets.list-all''\<rparr>) = Some ''pets.list-all'' \<and>
   ''pets.list-all'' \<noteq> [] \<and>
   generateFunctionName ''get'' ''/pets'' (plainOperation\<lparr>operationId := Some ''pets.list-all''\<rparr>)
     = ''pets_list_all''"
proof -
  have h: "operationId (plainOperation\<lparr>operationId := Some ''pets.list-all''\<rparr>) = Some ''pets.list-all''"
    by simp
  have n: "''pets.list-all'' \<noteq> []" by simp
  have e: "map (\<lambda>c. if isWordChar c then c else CHR ''_'') ''pets.list-all'' = ''pets_list_all''"
    by code_simp
  from C8_operationId_name [OF h n, of "''get''" "''/pets''"] e h n
  show ?thesis by (simp only: simp_thms)
qed

text \<open>Claim C8, counterexample: an operation whose \<open>operationId\<close> is the empty string is
  named from its method and path, not by the (empty) sanitized identifier.\<close>

theorem C8_empty_operationId_counterexample:
  "operationId emptyIdOperation = Some [] \<and>
   generateFunctionName ''get'' ''/pets'' emptyIdOperation = ''get_pets'' \<and>
   generateFunctionName ''get'' ''/pets'' emptyIdOperation
     \<noteq> map (\<lambda>c. if isWordChar c then c else CHR ''_'') []"
  by code_simp

section \<open>Properties of the type mapper\<close>

text \<open>
  A node that conforms to the declared type \<open>OpenAPIV3.SchemaObject\<close> as far as the
  mapper reads it: an object whose \<open>items\<close>, when present, is such an object (a
  reference object is one too), whose \<open>properties\<close>, when present, is an object of such
  objects, and whose \<open>additionalProperties\<close>, when present, is a boolean or such an
  object. Nothing is asked of \<open>type\<close>, \<open>format\<close> or \<open>enum\<close>.
\<close>

fun isBoolean :: "jsval \<Rightarrow> bool" where
  "isBoolean (JBool b) = True"
| "isBoolean v = False"

function isSchemaObject :: "jsval \<Rightarrow> bool" where
  "isSchemaObject s =
     (case s of
        JObj kvs \<Rightarrow>
          (if getProp s ''items'' = JUndefined then True
           else isSchemaObject (getProp s ''items'')) \<and>
          (if getProp s ''properties'' = JUndefined then True
           else (case getProp s ''properties'' of
                   JObj ps \<Rightarrow> list_all (\<lambda>p. isSchemaObject (snd p)) ps
                 | _ \<Rightarrow> False)) \<and>
          (if getProp s ''additionalProperties'' = JUndefined then True
           else if isBoolean (getProp s ''additionalProperties'') then True
           else isSchemaObject (getProp s ''additionalProperties''))
      | _ \<Rightarrow> False)"
  by pat_completeness auto

termination isSchemaObject
proof (relation "measure size", goal_cases)
  case 1
  show ?case by simp
next
  case (2 s kvs)
  from 2(2) have "size (getProp s ''items'') < size s" by (rule size_getProp)
  then show ?case by simp
next
  case (3 s kvs ps p)
  from 3(4) have "(fst p, snd p) \<in> set (forInEntries (JObj ps))" by simp
  moreover have "hasRef (JObj ps) = Inr (objGet ps ''$ref'' \<noteq> None)" by simp
  have "size (snd p) < Suc (size_list (size_prod (\<lambda>_. 0) size) ps)"
    using 3(4) by (induction ps) auto
  then have "size (snd p) < size (getProp s ''properties'')"
    using 3(3) by simp
  moreover from 3(2) have "size (getProp s ''properties'') < size s" by (rule size_getProp)
  ultimately show ?case by simp
next
  case (4 s kvs)
  from 4(2) have "size (getProp s ''additionalProperties'') < size s" by (rule size_getProp)
  then show ?case by simp
qed

declare isSchemaObject.simps [simp del]

lemma isSchemaObject_JObj: "isSchemaObject s \<Longrightarrow> \<exists>kvs. s = JObj kvs"
  by (subst (asm) isSchemaObject.simps) (auto split: jsval.splits)

lemma isSchemaObject_hasRef: "isSchemaObject s \<Longrightarrow> \<exists>r. hasRef s = Inr r"
  by (auto dest: isSchemaObject_JObj)

lemma isSchemaObject_truthy: "isSchemaObject s \<Longrightarrow> truthy s"
  by (auto dest: isSchemaObject_JObj)

lemma isSchemaObject_items:
  "isSchemaObject s \<Longrightarrow> getProp s ''items'' \<noteq> JUndefined \<Longrightarrow> isSchemaObject (getProp s ''items'')"
  by (subst (asm) isSchemaObject.simps) (auto split: jsval.splits)

lemma isSchemaObject_properties:
  "isSchemaObject s \<Longrightarrow> getProp s ''properties'' \<noteq> JUndefined \<Longrightarrow>
   \<exists>ps. getProp s ''properties'' = JObj ps \<and> (\<forall>p \<in> set ps. isSchemaObject (snd p))"
  by (subst (asm) isSchemaObject.simps) (auto split: jsval.splits if_splits simp: list_all_iff)

lemma isSchemaObject_additionalProperties:
  "isSchemaObject s \<Longrightarrow> typeofObject (getProp s ''additionalProperties'') \<Longrightarrow>
   isSchemaObject (getProp s ''additionalProperties'')"
  apply (subst (asm) isSchemaObject.simps)
  apply (cases "getProp s ''additionalProperties''")
  apply (auto split: jsval.splits if_splits)
  done

lemma forEachE_Inr:
  "(\<And>x a. x \<in> set xs \<Longrightarrow> \<exists>b. f x a = Inr b) \<Longrightarrow> \<exists>b. forEachE f xs a = Inr b"
proof (induction xs arbitrary: a)
  case Nil
  then show ?case by simp
next
  case (Cons x xs)
  from Cons.prems [of x a] obtain b where b: "f x a = Inr b" by auto
  have "\<exists>c. forEachE f xs b = Inr c"
    by (rule Cons.IH) (auto intro: Cons.prems)
  with b show ?case by simp
qed

lemma mapper_total_on_schema_objects:
  "isSchemaObject s \<Longrightarrow> \<exists>z. openApiTypeToZod s = Inr z"
proof (induction s rule: openApiTypeToZod.induct)
  case (1 schema)
  note so = \<open>isSchemaObject schema\<close>
  have tr: "truthy schema" using so by (rule isSchemaObject_truthy)
  let ?items = "getProp schema ''items''"
  let ?props = "getProp schema ''properties''"
  let ?ap = "getProp schema ''additionalProperties''"
  consider (other) "getProp schema ''type'' \<noteq> JStr ''array''" "getProp schema ''type'' \<noteq> JStr ''object''"
    | (array) "getProp schema ''type'' = JStr ''array''"
    | (object) "getProp schema ''type'' = JStr ''object''" by blast
  then show ?case
  proof cases
    case other
    then show ?thesis
      by (subst openApiTypeToZod.simps) (simp add: tr)
  next
    case array
    show ?thesis
    proof (cases "truthy ?items")
      case False
      with array show ?thesis by (subst openApiTypeToZod.simps) (simp add: tr)
    next
      case True
      then have ne: "?items \<noteq> JUndefined" by auto
      have si: "isSchemaObject ?items" using so ne by (rule isSchemaObject_items)
      then obtain r where r: "hasRef ?items = Inr r" using isSchemaObject_hasRef by blast
      show ?thesis
      proof (cases r)
        case True
        with array \<open>truthy ?items\<close> r show ?thesis
          by (subst openApiTypeToZod.simps) (simp add: tr)
      next
        case False
        have "\<exists>z. openApiTypeToZod ?items = Inr z"
          using "1.IH"(1) [OF _ _ _ _ _ _ \<open>truthy ?items\<close> r False si] tr array by simp
        then obtain z where "openApiTypeToZod ?items = Inr z" ..
        with array \<open>truthy ?items\<close> r False show ?thesis
          by (subst openApiTypeToZod.simps) (simp add: tr)
      qed
    qed
  next
    case object
    show ?thesis
    proof (cases "truthy ?props")
      case False
      with object show ?thesis by (subst openApiTypeToZod.simps) (simp add: tr)
    next
      case True
      then have ne: "?props \<noteq> JUndefined" by auto
      from isSchemaObject_properties [OF so ne] obtain ps
        where ps: "?props = JObj ps" and all: "\<forall>p \<in> set ps. isSchemaObject (snd p)" by blast
      let ?step = "\<lambda>entry shape.
                     case hasRef (snd entry) of
                       Inl e \<Rightarrow> Inl e
                     | Inr r \<Rightarrow>
                         if r then Inr (objSet shape (fst entry) ZAny)
                         else (case openApiTypeToZod (snd entry) of
                                 Inl e \<Rightarrow> Inl e
                               | Inr z \<Rightarrow> Inr (objSet shape (fst entry) z))"
      have step: "\<exists>b. ?step entry shape = Inr b" if mem: "entry \<in> set (forInEntries ?props)"
        for entry shape
      proof -
        from mem ps all have se: "isSchemaObject (snd entry)" by simp
        then obtain r where r: "hasRef (snd entry) = Inr r" using isSchemaObject_hasRef by blast
        show ?thesis
        proof (cases r)
          case True
          with r show ?thesis by simp
        next
          case False
          have "\<exists>z. openApiTypeToZod (snd entry) = Inr z"
            using "1.IH"(2) [OF _ _ _ _ _ _ _ True mem r False se] tr object by simp
          with r False show ?thesis by auto
        qed
      qed
      from forEachE_Inr [of "forInEntries ?props" ?step "[]"] step
      obtain shape where shape: "forEachE ?step (forInEntries ?props) [] = Inr shape" by blast
      show ?thesis
      proof (cases "?ap = JBool True")
        case apTrue: True
        with object True shape show ?thesis
          by (subst openApiTypeToZod.simps) (simp add: tr)
      next
        case apNotTrue: False
        show ?thesis
        proof (cases "typeofObject ?ap")
          case False
          with object True shape apNotTrue show ?thesis
            by (subst openApiTypeToZod.simps) (simp add: tr)
        next
          case tob: True
          have sa: "isSchemaObject ?ap" using so tob by (rule isSchemaObject_additionalProperties)
          then obtain r where r: "hasRef ?ap = Inr r" using isSchemaObject_hasRef by blast
          show ?thesis
          proof (cases r)
            case True
            with object \<open>truthy ?props\<close> shape apNotTrue tob r show ?thesis
              by (subst openApiTypeToZod.simps) (simp add: tr)
          next
            case False
            have "\<exists>z. openApiTypeToZod ?ap = Inr z"
              using "1.IH"(3) [OF _ _ _ _ _ _ _ \<open>truthy ?props\<close> shape apNotTrue tob r False sa] tr object
              by simp
            then obtain z where "openApiTypeToZod ?ap = Inr z" ..
            with object \<open>truthy ?props\<close> shape apNotTrue tob r False show ?thesis
              by (subst openApiTypeToZod.simps) (simp add: tr)
          qed
        qed
      qed
    qed
  qed
qed


definition enumSchema :: jsval where
  "enumSchema = JObj [(''type'', JStr ''string''), (''enum'', JArr [JNum 1, JNull, JObj []])]"

definition nestedSchema :: jsval where
  "nestedSchema =
     JObj [(''type'', JStr ''object''),
           (''properties'',
              JObj [(''tags'', JObj [(''type'', JStr ''array''), (''items'', enumSchema)]),
                    (''owner'', JObj [(''$ref'', JStr ''#/components/schemas/User'')]),
                    (''when'', JObj [(''type'', JStr ''string''), (''format'', JStr ''date-time'')]),
                    (''odd'', JObj [(''type'', JStr ''file'')])]),
           (''additionalProperties'', JObj [(''type'', JStr ''integer'')])]"

text \<open>
  Claim C7, as the code has it. The mapper returns a descriptor and raises nothing on
  every node that conforms to the declared schema type, whatever its \<open>type\<close>,
  \<open>format\<close> and \<open>enum\<close> hold; an absent (falsy) node and a node whose \<open>type\<close> is none
  of the six the mapper knows yield the accept-any-value descriptor; a string node
  with an \<open>enum\<close> of any content yields the closed-set descriptor over that content.
\<close>

theorem C7_mapper_total_on_schema_objects:
  "(\<not> truthy s \<longrightarrow> openApiTypeToZod s = Inr ZAny) \<and>
   (isSchemaObject s \<longrightarrow> (\<exists>z. openApiTypeToZod s = Inr z)) \<and>
   (truthy s \<and>
    getProp s ''type'' \<notin> set (map JStr [''string'', ''integer'', ''number'', ''boolean'', ''array'', ''object''])
      \<longrightarrow> openApiTypeToZod s = Inr ZAny) \<and>
   (truthy s \<and> getProp s ''type'' = JStr ''string'' \<and> truthy (getProp s ''enum'')
      \<longrightarrow> openApiTypeToZod s = Inr (ZEnum (getProp s ''enum'')))"
proof (intro conjI impI)
  assume "\<not> truthy s"
  then show "openApiTypeToZod s = Inr ZAny"
    by (subst openApiTypeToZod.simps) simp
next
  assume "isSchemaObject s"
  then show "\<exists>z. openApiTypeToZod s = Inr z"
    by (rule mapper_total_on_schema_objects)
next
  assume "truthy s \<and>
    getProp s ''type'' \<notin> set (map JStr [''string'', ''integer'', ''number'', ''boolean'', ''array'', ''object''])"
  then show "openApiTypeToZod s = Inr ZAny"
    by (subst openApiTypeToZod.simps) simp
next
  assume "truthy s \<and> getProp s ''type'' = JStr ''string'' \<and> truthy (getProp s ''enum'')"
  then show "openApiTypeToZod s = Inr (ZEnum (getProp s ''enum''))"
    by (subst openApiTypeToZod.simps) simp
qed

text \<open>Claim C7, witness: a string node whose \<open>enum\<close> holds a number, \<open>null\<close> and an object,
  and an object node with nested, referenced and unsupported property schemas.\<close>

theorem C7_mapper_total_on_schema_objects_witness:
  "isSchemaObject enumSchema \<and>
   openApiTypeToZod enumSchema = Inr (ZEnum (JArr [JNum 1, JNull, JObj []])) \<and>
   isSchemaObject nestedSchema \<and>
   (\<exists>z. openApiTypeToZod nestedSchema = Inr z) \<and>
   openApiTypeToZod JUndefined = Inr ZAny \<and>
   openApiTypeToZod (JObj [(''type'', JStr ''file'')]) = Inr ZAny"
proof -
  have a: "isSchemaObject enumSchema" by code_simp
  have b: "isSchemaObject nestedSchema" by code_simp
  have c: "truthy enumSchema \<and> getProp enumSchema ''type'' = JStr ''string'' \<and>
           truthy (getProp enumSchema ''enum'')" by code_simp
  have d: "getProp enumSchema ''enum'' = JArr [JNum 1, JNull, JObj []]" by code_simp
  have e: "truthy (JObj [(''type'', JStr ''file'')]) \<and>
    getProp (JObj [(''type'', JStr ''file'')]) ''type''
      \<notin> set (map JStr [''string'', ''integer'', ''number'', ''boolean'', ''array'', ''object''])"
    by code_simp
  have f: "\<not> truthy JUndefined" by simp
  from C7_mapper_total_on_schema_objects [of enumSchema] a c d
       C7_mapper_total_on_schema_objects [of nestedSchema] b
       C7_mapper_total_on_schema_objects [of JUndefined] f
       C7_mapper_total_on_schema_objects [of "JObj [(''type'', JStr ''file'')]"] e
  show ?thesis by (simp only: simp_thms)
qed

text \<open>Claim C7, counterexample: on the malformed node \<open>{type: 'array', items: true}\<close> the
  test \<^verbatim>\<open>'$ref' in schema.items\<close> raises a \<open>TypeError\<close>.\<close>

theorem C7_malformed_items_counterexample:
  "openApiTypeToZod (JObj [(''type'', JStr ''array''), (''items'', JBool True)])
     = Inl (TypeError ''Cannot use the in operator to search for $ref'')"
  by code_simp

section \<open>Properties of the request executor\<close>

text \<open>A parameter whose argument is missing, for the executor: the looked-up value is
  \<open>undefined\<close>.\<close>

definition missingRequired :: "(string \<times> jsval) list \<Rightarrow> MCPParameter \<Rightarrow> bool" where
  "missingRequired mcpArgs p = (p_required p \<and> argValue mcpArgs (p_name p) = JUndefined)"

text \<open>The HTTP requests among the events of a call, and the console warnings.\<close>

fun requestsOf :: "event list \<Rightarrow> AxiosConfig list" where
  "requestsOf [] = []"
| "requestsOf (HttpRequest c # es) = c # requestsOf es"
| "requestsOf (Console l # es) = requestsOf es"

fun warningsOf :: "event list \<Rightarrow> string list" where
  "warningsOf [] = []"
| "warningsOf (Console (Warn w) # es) = w # warningsOf es"
| "warningsOf (e # es) = warningsOf es"

lemma requestsOf_append: "requestsOf (xs @ ys) = requestsOf xs @ requestsOf ys"
  by (induction xs rule: requestsOf.induct) auto

lemma requestsOf_console: "requestsOf (map Console ls) = []"
  by (induction ls) auto

lemma processParam_throws:
  "processParam env mcpArgs p st = Inl e \<longleftrightarrow>
     missingRequired mcpArgs p \<and> e = Error (''Missing required parameter: '' @ p_name p)"
  by (auto simp: processParam_def missingRequired_def Let_def split: jsval.splits option.splits)

lemma processParam_returns:
  "\<not> missingRequired mcpArgs p \<Longrightarrow> \<exists>st'. processParam env mcpArgs p st = Inr st'"
  using processParam_throws [of env mcpArgs p st]
  by (cases "processParam env mcpArgs p st") auto


lemma loop_completes:
  "find (missingRequired mcpArgs) ps = None \<Longrightarrow>
   \<exists>st'. forEachS (processParam env mcpArgs) ps st = (st', None)"
proof (induction ps arbitrary: st)
  case Nil
  then show ?case by simp
next
  case (Cons p ps)
  then have nm: "\<not> missingRequired mcpArgs p" and rest: "find (missingRequired mcpArgs) ps = None"
    by (auto split: if_splits)
  from nm obtain st1 where "processParam env mcpArgs p st = Inr st1"
    using processParam_returns by blast
  with Cons.IH [OF rest] show ?case by simp
qed





definition petParam :: MCPParameter where
  "petParam = \<lparr>p_name = ''petId'', p_description = None, p_type = JStr ''integer'',
     p_required = True, p_schema = JObj [(''type'', JStr ''integer'')], p_in = Some ''path''\<rparr>"

definition getPet :: OriginalOperationDetails where
  "getPet = \<lparr>od_method = ''GET'', od_path = ''/pets/{petId}'', od_parameters = [petParam],
     od_consumes = None, od_produces = Some [''application/json'']\<rparr>"

text \<open>A platform whose upstream answers every request with an empty \<open>200\<close>.\<close>

definition quietPlatform :: platform where
  "quietPlatform = \<lparr>axios = (\<lambda>c. Inr \<lparr>resp_status = 200, resp_headers = [], resp_body = []\<rparr>),
     bufferFromBase64 = (\<lambda>s. Some []), parseBody = (\<lambda>b. JNull),
     jsonStringify = (\<lambda>d. Some ''null'')\<rparr>"





subsection \<open>The base64 text determines the bytes\<close>

fun indexOf :: "'a \<Rightarrow> 'a list \<Rightarrow> nat option" where
  "indexOf c [] = None"
| "indexOf c (x # xs) = (if x = c then Some 0 else map_option Suc (indexOf c xs))"

definition base64Index :: "char \<Rightarrow> nat option" where
  "base64Index c = indexOf c base64Alphabet"

text \<open>A strict decoder for RFC 4648 text with padding, used only to state that
  \<^const>\<open>toBase64\<close> loses nothing.\<close>

fun fromBase64 :: "string \<Rightarrow> byte list option" where
  "fromBase64 [] = Some []"
| "fromBase64 (c0 # c1 # c2 # c3 # rest) =
     (case (base64Index c0, base64Index c1) of
        (Some i0, Some i1) \<Rightarrow>
          (if c2 = CHR ''='' then
             (if c3 = CHR ''='' \<and> rest = [] then Some [of_nat (i0 * 4 + i1 div 16)] else None)
           else case base64Index c2 of
             None \<Rightarrow> None
           | Some i2 \<Rightarrow>
               (if c3 = CHR ''='' then
                  (if rest = []
                   then Some [of_nat (i0 * 4 + i1 div 16), of_nat (i1 mod 16 * 16 + i2 div 4)]
                   else None)
                else case base64Index c3 of
                  None \<Rightarrow> None
                | Some i3 \<Rightarrow>
                    map_option
                      (\<lambda>bs. [of_nat (i0 * 4 + i1 div 16), of_nat (i1 mod 16 * 16 + i2 div 4),
                             of_nat (i2 mod 4 * 64 + i3)] @ bs)
                      (fromBase64 rest)))
      | _ \<Rightarrow> None)"
| "fromBase64 cs = None"

lemma base64_table:
  "\<forall>i \<in> set [0..<64]. base64Index (base64Char i) = Some i \<and> base64Char i \<noteq> CHR ''=''"
  by code_simp

lemma base64Index_Char: "i < 64 \<Longrightarrow> base64Index (base64Char i) = Some i"
  using base64_table by simp

lemma base64Char_not_pad: "i < 64 \<Longrightarrow> base64Char i \<noteq> CHR ''=''"
  using base64_table by simp

lemma low_sextet:
  fixes a b :: nat
  assumes "b < 256"
  shows "(a mod 4 * 16 + b div 16) div 16 = a mod 4"
    and "(a mod 4 * 16 + b div 16) mod 16 = b div 16"
proof -
  from assms have "b div 16 < 16" by simp
  then show "(a mod 4 * 16 + b div 16) div 16 = a mod 4"
    and "(a mod 4 * 16 + b div 16) mod 16 = b div 16"
    by simp_all
qed

lemma high_sextet:
  fixes b c :: nat
  assumes "c < 256"
  shows "(b mod 16 * 4 + c div 64) div 4 = b mod 16"
    and "(b mod 16 * 4 + c div 64) mod 4 = c div 64"
proof -
  from assms have "c div 64 < 4" by simp
  then show "(b mod 16 * 4 + c div 64) div 4 = b mod 16"
    and "(b mod 16 * 4 + c div 64) mod 4 = c div 64"
    by simp_all
qed

lemma sextets:
  fixes a b c :: nat
  assumes "a < 256" "b < 256" "c < 256"
  shows "a div 4 < 64" "a mod 4 * 16 + b div 16 < 64" "b mod 16 * 4 + c div 64 < 64"
    "c mod 64 < 64" "a mod 4 * 16 < 64" "b mod 16 * 4 < 64"
proof -
  from assms have "a div 4 < 64" "b div 16 < 16" "c div 64 < 4" by simp_all
  moreover have "a mod 4 < 4" "b mod 16 < 16" "c mod 64 < 64" by simp_all
  ultimately show "a div 4 < 64" "a mod 4 * 16 + b div 16 < 64" "b mod 16 * 4 + c div 64 < 64"
    "c mod 64 < 64" "a mod 4 * 16 < 64" "b mod 16 * 4 < 64"
    by linarith+
qed

lemma rebuild:
  fixes a b c :: nat
  assumes "a < 256" "b < 256" "c < 256"
  shows "a div 4 * 4 + (a mod 4 * 16 + b div 16) div 16 = a"
    "(a mod 4 * 16 + b div 16) mod 16 * 16 + (b mod 16 * 4 + c div 64) div 4 = b"
    "(b mod 16 * 4 + c div 64) mod 4 * 64 + c mod 64 = c"
    "a div 4 * 4 + (a mod 4 * 16) div 16 = a"
    "(a mod 4 * 16 + b div 16) mod 16 * 16 + (b mod 16 * 4) div 4 = b"
  using low_sextet [OF assms(2), of a] high_sextet [OF assms(3), of b]
  by simp_all

lemma unat_byte: "unat (a :: byte) < 256"
  using unsigned_less [of a, where ?'a = nat] by simp

lemma byte_of_unat: "n = unat a \<Longrightarrow> (of_nat n :: byte) = a"
  by simp

text \<open>One group of three bytes, and the last group of one or two.\<close>

lemma decode_group:
  "fromBase64
     (base64Char (unat a div 4) # base64Char (unat a mod 4 * 16 + unat b div 16) #
      base64Char (unat b mod 16 * 4 + unat c div 64) # base64Char (unat c mod 64) # cs)
     = map_option (\<lambda>bs. [a, b, c] @ bs) (fromBase64 cs)"
proof -
  note s = sextets [OF unat_byte [of a] unat_byte [of b] unat_byte [of c]]
  note r = rebuild [OF unat_byte [of a] unat_byte [of b] unat_byte [of c]]
  have b0: "(of_nat (unat a div 4 * 4 + (unat a mod 4 * 16 + unat b div 16) div 16) :: byte) = a"
    by (rule byte_of_unat) (rule r(1))
  have b1: "(of_nat ((unat a mod 4 * 16 + unat b div 16) mod 16 * 16 +
              (unat b mod 16 * 4 + unat c div 64) div 4) :: byte) = b"
    by (rule byte_of_unat) (rule r(2))
  have b2: "(of_nat ((unat b mod 16 * 4 + unat c div 64) mod 4 * 64 + unat c mod 64) :: byte) = c"
    by (rule byte_of_unat) (rule r(3))
  show ?thesis
    by (simp only: fromBase64.simps base64Index_Char [OF s(1)]
          base64Index_Char [OF s(2)] base64Index_Char [OF s(3)] base64Index_Char [OF s(4)]
          base64Char_not_pad [OF s(3)] base64Char_not_pad [OF s(4)]
          prod.case option.case if_False b0 b1 b2)
qed

lemma decode_last_one:
  "fromBase64 [base64Char (unat a div 4), base64Char (unat a mod 4 * 16), CHR ''='', CHR ''='']
     = Some [a]"
proof -
  note s = sextets [OF unat_byte [of a] unat_byte [of a] unat_byte [of a]]
  note r = rebuild [OF unat_byte [of a] unat_byte [of a] unat_byte [of a]]
  have b0: "(of_nat (unat a div 4 * 4 + (unat a mod 4 * 16) div 16) :: byte) = a"
    by (rule byte_of_unat) (rule r(4))
  show ?thesis
    by (simp only: fromBase64.simps base64Index_Char [OF s(1)] base64Index_Char [OF s(5)]
          prod.case option.case if_True simp_thms b0)
qed

lemma decode_last_two:
  "fromBase64 [base64Char (unat a div 4), base64Char (unat a mod 4 * 16 + unat b div 16),
               base64Char (unat b mod 16 * 4), CHR ''='']
     = Some [a, b]"
proof -
  note s = sextets [OF unat_byte [of a] unat_byte [of b] unat_byte [of b]]
  note r = rebuild [OF unat_byte [of a] unat_byte [of b] unat_byte [of b]]
  have b0: "(of_nat (unat a div 4 * 4 + (unat a mod 4 * 16 + unat b div 16) div 16) :: byte) = a"
    by (rule byte_of_unat) (rule r(1))
  have b1: "(of_nat ((unat a mod 4 * 16 + unat b div 16) mod 16 * 16 +
              (unat b mod 16 * 4) div 4) :: byte) = b"
    by (rule byte_of_unat) (rule r(5))
  show ?thesis
    by (simp only: fromBase64.simps base64Index_Char [OF s(1)] base64Index_Char [OF s(2)]
          base64Index_Char [OF s(6)] base64Char_not_pad [OF s(6)]
          prod.case option.case if_True if_False simp_thms b0 b1)
qed

text \<open>
  The base64 text that the binary envelope carries determines the response bytes:
  decoding it gives the bytes back.
\<close>

lemma base64_roundtrip: "fromBase64 (toBase64 bytes) = Some bytes"
proof (induction bytes rule: toBase64.induct)
  case 1
  show ?case by simp
next
  case (2 a)
  show ?case by (simp only: toBase64.simps decode_last_one)
next
  case (3 a b)
  show ?case by (simp only: toBase64.simps decode_last_two)
next
  case (4 a b c rest)
  show ?case
    by (simp only: toBase64.simps decode_group "4.IH" option.map append_Cons append_Nil)
qed

subsection \<open>The outcome of a call\<close>

lemma sendRequest_success:
  assumes "forEachS (processParam env mcpArgs) (od_parameters od) (initialState od) = (st, None)"
      and "axios env (buildConfig base od st) = Inr response"
  shows "snd (sendRequest env base od mcpArgs) =
           Inr (if cfg_responseType (buildConfig base od st) = Arraybuffer
                then JObj [(''_isBinary'', JBool True),
                           (''contentType'',
                              (case objGet (resp_headers response) ''content-type'' of
                                 Some ct \<Rightarrow> JStr ct
                               | None \<Rightarrow> JUndefined)),
                           (''data'', JStr (toBase64 (resp_body response)))]
                else parseBody env (resp_body response))"
  using assms by (simp add: sendRequest_def Let_def)

lemma sendRequest_failure:
  assumes "forEachS (processParam env mcpArgs) (od_parameters od) (initialState od) = (st, None)"
      and "axios env (buildConfig base od st) = Inl err"
  shows "snd (sendRequest env base od mcpArgs) =
           Inl (Error (''API call failed. '' @
                  failureDetail env (cfg_responseType (buildConfig base od st)) err))"
  using assms by (simp add: sendRequest_def Let_def)

lemma sendRequest_requests:
  assumes "forEachS (processParam env mcpArgs) (od_parameters od) (initialState od) = (st, None)"
  shows "requestsOf (fst (sendRequest env base od mcpArgs)) = [buildConfig base od st]"
  using assms
  by (auto simp: sendRequest_def Let_def requestsOf_append requestsOf_console split: sum.splits)

lemma executeApiCall_configured:
  "base \<noteq> [] \<Longrightarrow> executeApiCall env (Some base) od mcpArgs = sendRequest env base od mcpArgs"
  by (simp add: executeApiCall_def)

lemma responseType_of_config:
  "cfg_responseType (buildConfig base od st)
     = (if isJsonExpected (cs_headers st) then Json else Arraybuffer)"
  by (simp add: buildConfig_def Let_def)

lemma headers_of_config: "cfg_headers (buildConfig base od st) = cs_headers st"
  by (simp add: buildConfig_def Let_def)

text \<open>
  Claim C1, as the code has it. When the parameter loop completes, the \<open>Accept\<close> header
  of the request is a non-empty string that, lower-cased, holds neither \<open>json\<close> nor
  \<open>*/*\<close>, and the upstream call succeeds, the call returns the object
  \<open>{ _isBinary: true, contentType, data }\<close>: the tag is spelled \<open>_isBinary\<close>,
  \<open>contentType\<close> is the response's \<open>content-type\<close> header (\<open>undefined\<close> when the response
  has none), and \<open>data\<close> is the base64 text of the response bytes, from which a strict
  decoder gets exactly these bytes back.
\<close>

theorem C1_binary_envelope:
  assumes "base \<noteq> []"
      and "forEachS (processParam env mcpArgs) (od_parameters od) (initialState od) = (st, None)"
      and "objGet (cfg_headers (buildConfig base od st)) ''Accept'' = Some accept"
      and "accept \<noteq> []"
      and "\<not> strIncludes (toLowerCase accept) ''json''"
      and "\<not> strIncludes (toLowerCase accept) ''*/*''"
      and "axios env (buildConfig base od st) = Inr response"
  shows "snd (executeApiCall env (Some base) od mcpArgs) =
           Inr (JObj [(''_isBinary'', JBool True),
                      (''contentType'',
                         (case objGet (resp_headers response) ''content-type'' of
                            Some ct \<Rightarrow> JStr ct
                          | None \<Rightarrow> JUndefined)),
                      (''data'', JStr (toBase64 (resp_body response)))]) \<and>
         fromBase64 (toBase64 (resp_body response)) = Some (resp_body response)"
proof -
  from assms(3-6) have "\<not> isJsonExpected (cs_headers st)"
    by (simp add: isJsonExpected_def headers_of_config toLowerCase_def)
  then have "cfg_responseType (buildConfig base od st) = Arraybuffer"
    by (simp add: responseType_of_config)
  with sendRequest_success [OF assms(2) assms(7)] assms(1) show ?thesis
    by (simp add: executeApiCall_configured base64_roundtrip)
qed

definition imageParam :: MCPParameter where
  "imageParam = \<lparr>p_name = ''id'', p_description = None, p_type = JStr ''string'',
     p_required = True, p_schema = JObj [(''type'', JStr ''string'')], p_in = Some ''path''\<rparr>"

definition getImage :: OriginalOperationDetails where
  "getImage = \<lparr>od_method = ''GET'', od_path = ''/images/{id}'', od_parameters = [imageParam],
     od_consumes = None, od_produces = Some [''image/png'']\<rparr>"

text \<open>A platform whose upstream answers every request with the three bytes \<open>Man\<close> as
  \<open>image/png\<close>.\<close>

definition imagePlatform :: platform where
  "imagePlatform =
     \<lparr>axios = (\<lambda>c. Inr \<lparr>resp_status = 200, resp_headers = [(''content-type'', ''image/png'')],
                          resp_body = [77, 97, 110]\<rparr>),
      bufferFromBase64 = (\<lambda>s. Some []), parseBody = (\<lambda>b. JNull),
      jsonStringify = (\<lambda>d. Some ''null'')\<rparr>"

definition imageState :: callState where
  "imageState = \<lparr>cs_headers = [(''Accept'', ''image/png'')], cs_queryParams = [],
     cs_requestBody = Value JUndefined, cs_urlPath = ''/images/a%20b'', cs_log = []\<rparr>"

text \<open>Claim C1, witness: \<open>GET /images/{id}\<close>, which produces \<open>image/png\<close>.\<close>

theorem C1_binary_envelope_witness:
  "forEachS (processParam imagePlatform [(''id'', JStr ''a b'')]) (od_parameters getImage)
     (initialState getImage) = (imageState, None) \<and>
   objGet (cfg_headers (buildConfig ''https://img.example.com/'' getImage imageState)) ''Accept''
     = Some ''image/png'' \<and>
   cfg_url (buildConfig ''https://img.example.com/'' getImage imageState)
     = ''https://img.example.com/images/a%20b'' \<and>
   snd (executeApiCall imagePlatform (Some ''https://img.example.com/'') getImage
          [(''id'', JStr ''a b'')])
     = Inr (JObj [(''_isBinary'', JBool True), (''contentType'', JStr ''image/png''),
                  (''data'', JStr ''TWFu'')]) \<and>
   fromBase64 ''TWFu'' = Some [77, 97, 110]"
proof -
  let ?cfg = "buildConfig ''https://img.example.com/'' getImage imageState"
  let ?resp = "\<lparr>resp_status = 200, resp_headers = [(''content-type'', ''image/png'')],
                 resp_body = [77, 97, 110 :: byte]\<rparr>"
  have h1: "''https://img.example.com/'' \<noteq> []" by simp
  have h2: "forEachS (processParam imagePlatform [(''id'', JStr ''a b'')]) (od_parameters getImage)
     (initialState getImage) = (imageState, None)" by code_simp
  have h3: "objGet (cfg_headers ?cfg) ''Accept'' = Some ''image/png''" by code_simp
  have h4: "''image/png'' \<noteq> []" by simp
  have h5: "\<not> strIncludes (toLowerCase ''image/png'') ''json''" by code_simp
  have h6: "\<not> strIncludes (toLowerCase ''image/png'') ''*/*''" by code_simp
  have h7: "axios imagePlatform ?cfg = Inr ?resp" by (simp add: imagePlatform_def)
  have u: "cfg_url ?cfg = ''https://img.example.com/images/a%20b''" by code_simp
  have b: "toBase64 [77, 97, 110] = ''TWFu''" by code_simp
  have c: "objGet [(''content-type'', ''image/png'')] ''content-type'' = Some ''image/png''"
    by (simp add: objGet_def)
  have rb: "resp_body ?resp = [77, 97, 110]" by simp
  have rh: "resp_headers ?resp = [(''content-type'', ''image/png'')]" by simp
  note t = C1_binary_envelope [OF h1 h2 h3 h4 h5 h6 h7]
  from t have t1: "snd (executeApiCall imagePlatform (Some ''https://img.example.com/'') getImage
          [(''id'', JStr ''a b'')])
     = Inr (JObj [(''_isBinary'', JBool True), (''contentType'', JStr ''image/png''),
                  (''data'', JStr ''TWFu'')])"
    unfolding rb rh c b option.case by (rule conjunct1)
  from t have t2: "fromBase64 ''TWFu'' = Some [77, 97, 110]"
    unfolding rb b by (rule conjunct2)
  show ?thesis
    by (intro conjI) (rule h2 h3 u t1 t2)+
qed

text \<open>Claim C1, counterexample: the value returned has no \<open>isBinary\<close> property; it is not
  the envelope the specification writes.\<close>

theorem C1_isBinary_counterexample:
  "snd (executeApiCall imagePlatform (Some ''https://img.example.com/'') getImage
          [(''id'', JStr ''a b'')])
     \<noteq> Inr (JObj [(''isBinary'', JBool True), (''contentType'', JStr ''image/png''),
                   (''data'', JStr ''TWFu'')])"
  by code_simp

lemma startsWith_prefix: "startsWith (t @ r) t"
  by (simp add: startsWith_def)

lemma strIncludes_prefix: "strIncludes (t @ r) t"
proof (cases "t @ r")
  case Nil
  then show ?thesis by simp
next
  case (Cons a list)
  have "startsWith (t @ r) t" by (rule startsWith_prefix)
  with Cons show ?thesis by simp
qed

lemma showNat_404: "showNat 404 = ''404''"
  by code_simp

text \<open>The first part of every detail string.\<close>

definition statusText :: "AxiosError \<Rightarrow> string" where
  "statusText err =
     ''Status: '' @
     (case err_response err of
        None \<Rightarrow> ''N/A''
      | Some r \<Rightarrow> if resp_status r \<noteq> 0 then showNat (resp_status r) else ''N/A'')"

text \<open>The upstream content type is given and is not JSON: the header is a non-empty
  string that does not hold \<open>json\<close>.\<close>

definition nonJsonContentType :: "AxiosResponse \<Rightarrow> string option" where
  "nonJsonContentType r =
     (case objGet (resp_headers r) ''content-type'' of
        Some ct \<Rightarrow> if ct \<noteq> [] \<and> \<not> strIncludes ct ''json'' then Some ct else None
      | None \<Rightarrow> None)"

lemma failureDetail_no_response:
  "err_response err = None \<Longrightarrow> failureDetail env rt err = ''Status: N/A''"
  by (simp add: failureDetail_def)

lemma failureDetail_falsy:
  "err_response err = Some r \<Longrightarrow> \<not> dataTruthy (dataOf env rt r) \<Longrightarrow>
   failureDetail env rt err = statusText err"
  by (simp add: failureDetail_def statusText_def Let_def)

lemma failureDetail_content_type:
  "err_response err = Some r \<Longrightarrow> dataTruthy (dataOf env rt r) \<Longrightarrow>
   nonJsonContentType r = Some ct \<Longrightarrow>
   failureDetail env rt err = statusText err @ '', Content-Type: '' @ ct"
  by (auto simp: failureDetail_def statusText_def nonJsonContentType_def Let_def
           split: option.splits if_splits)

lemma failureDetail_data:
  "err_response err = Some r \<Longrightarrow> dataTruthy (dataOf env rt r) \<Longrightarrow>
   nonJsonContentType r = None \<Longrightarrow> jsonStringify env (dataOf env rt r) = Some js \<Longrightarrow>
   failureDetail env rt err = statusText err @ '', Data: '' @ js"
  by (auto simp: failureDetail_def statusText_def nonJsonContentType_def Let_def
           split: option.splits if_splits)

lemma failureDetail_marker:
  "err_response err = Some r \<Longrightarrow> dataTruthy (dataOf env rt r) \<Longrightarrow>
   nonJsonContentType r = None \<Longrightarrow> jsonStringify env (dataOf env rt r) = None \<Longrightarrow>
   failureDetail env rt err = statusText err @ '', Data: [Could not stringify response data]''"
  by (auto simp: failureDetail_def statusText_def nonJsonContentType_def Let_def
           split: option.splits if_splits)

lemma failureDetail_starts_with_status:
  "\<exists>rest. failureDetail env rt err = statusText err @ rest"
  by (auto simp: failureDetail_def statusText_def Let_def split: option.splits)

lemma statusText_404:
  "err_response err = Some r \<Longrightarrow> resp_status r = 404 \<Longrightarrow> statusText err = ''Status: 404''"
  by (simp add: statusText_def showNat_404)

text \<open>
  Claim C9, as the code has it. A failed upstream call makes the call fail with
  \<open>API call failed. <detail>\<close>. The detail starts with \<open>Status: <code>\<close> (\<open>N/A\<close> when
  there is no response or the code is 0). Nothing follows when there is no response or
  the response data is falsy (an empty body, for one). Otherwise the upstream content
  type follows when it is given and is not JSON; else the stringified data follows, or
  the fixed marker when stringifying throws. A 404 response gives a detail that holds
  \<open>Status: 404\<close>.
\<close>

theorem C9_failure_detail:
  assumes "base \<noteq> []"
      and "forEachS (processParam env mcpArgs) (od_parameters od) (initialState od) = (st, None)"
      and "axios env (buildConfig base od st) = Inl err"
      and "rt = cfg_responseType (buildConfig base od st)"
  shows "\<exists>detail.
           snd (executeApiCall env (Some base) od mcpArgs)
             = Inl (Error (''API call failed. '' @ detail)) \<and>
           (err_response err = None \<longrightarrow> detail = ''Status: N/A'') \<and>
           (\<forall>r. err_response err = Some r \<longrightarrow>
              (\<not> dataTruthy (dataOf env rt r) \<longrightarrow> detail = statusText err) \<and>
              (dataTruthy (dataOf env rt r) \<longrightarrow>
                 (\<forall>ct. nonJsonContentType r = Some ct \<longrightarrow>
                    detail = statusText err @ '', Content-Type: '' @ ct) \<and>
                 (nonJsonContentType r = None \<longrightarrow>
                    (\<forall>js. jsonStringify env (dataOf env rt r) = Some js \<longrightarrow>
                       detail = statusText err @ '', Data: '' @ js) \<and>
                    (jsonStringify env (dataOf env rt r) = None \<longrightarrow>
                       detail = statusText err @ '', Data: [Could not stringify response data]''))) \<and>
              (resp_status r = 404 \<longrightarrow> strIncludes detail ''Status: 404''))"
proof -
  let ?detail = "failureDetail env rt err"
  have res: "snd (executeApiCall env (Some base) od mcpArgs)
               = Inl (Error (''API call failed. '' @ ?detail))"
    using sendRequest_failure [OF assms(2) assms(3)] assms(1) assms(4)
    by (simp add: executeApiCall_configured)
  have nf: "strIncludes ?detail ''Status: 404''"
    if "err_response err = Some r" "resp_status r = 404" for r
  proof -
    from failureDetail_starts_with_status [of env rt err] obtain rest
      where "?detail = statusText err @ rest" by blast
    with statusText_404 [OF that] show ?thesis by (simp only: strIncludes_prefix)
  qed
  show ?thesis
  proof (intro exI [of _ ?detail] conjI allI impI)
    show "snd (executeApiCall env (Some base) od mcpArgs)
            = Inl (Error (''API call failed. '' @ ?detail))" by (rule res)
  qed (simp_all add: failureDetail_no_response failureDetail_falsy failureDetail_content_type
         failureDetail_data failureDetail_marker nf)
qed


text \<open>A platform whose upstream answers every request with a 404: with the JSON body
  \<open>[1]\<close>, and with an empty \<open>text/html\<close> body.\<close>

definition notFoundError :: AxiosError where
  "notFoundError =
     \<lparr>err_message = ''Request failed with status code 404'',
      err_response = Some \<lparr>resp_status = 404,
                             resp_headers = [(''content-type'', ''application/json'')],
                             resp_body = [91, 49, 93]\<rparr>\<rparr>"

definition notFoundPlatform :: platform where
  "notFoundPlatform =
     \<lparr>axios = (\<lambda>c. Inl notFoundError),
      bufferFromBase64 = (\<lambda>s. Some []),
      parseBody = (\<lambda>b. if b = [] then JStr [] else JArr [JNum 1]),
      jsonStringify = (\<lambda>d. Some ''[1]'')\<rparr>"

definition emptyNotFoundError :: AxiosError where
  "emptyNotFoundError =
     \<lparr>err_message = ''Request failed with status code 404'',
      err_response = Some \<lparr>resp_status = 404,
                             resp_headers = [(''content-type'', ''text/html'')],
                             resp_body = []\<rparr>\<rparr>"

definition emptyNotFoundPlatform :: platform where
  "emptyNotFoundPlatform = notFoundPlatform\<lparr>axios := (\<lambda>c. Inl emptyNotFoundError)\<rparr>"

definition petState :: callState where
  "petState = \<lparr>cs_headers = [(''Accept'', ''application/json'')], cs_queryParams = [],
     cs_requestBody = Value JUndefined, cs_urlPath = ''/pets/7'', cs_log = []\<rparr>"

text \<open>Claim C9, witness: \<open>GET /pets/7\<close> answered by a 404 with a JSON body.\<close>

theorem C9_failure_detail_witness:
  "forEachS (processParam notFoundPlatform [(''petId'', JNum 7)]) (od_parameters getPet)
     (initialState getPet) = (petState, None) \<and>
   axios notFoundPlatform (buildConfig ''https://api.example.com'' getPet petState)
     = Inl notFoundError \<and>
   snd (executeApiCall notFoundPlatform (Some ''https://api.example.com'') getPet
          [(''petId'', JNum 7)])
     = Inl (Error ''API call failed. Status: 404, Data: [1]'') \<and>
   strIncludes ''Status: 404, Data: [1]'' ''Status: 404''"
proof -
  let ?cfg = "buildConfig ''https://api.example.com'' getPet petState"
  let ?r = "\<lparr>resp_status = 404, resp_headers = [(''content-type'', ''application/json'')],
              resp_body = [91, 49, 93 :: byte]\<rparr>"
  have h1: "''https://api.example.com'' \<noteq> []" by simp
  have h2: "forEachS (processParam notFoundPlatform [(''petId'', JNum 7)]) (od_parameters getPet)
     (initialState getPet) = (petState, None)" by code_simp
  have h3: "axios notFoundPlatform ?cfg = Inl notFoundError" by (simp add: notFoundPlatform_def)
  have rt: "cfg_responseType ?cfg = Json" by code_simp
  have r: "err_response notFoundError = Some ?r" by (simp add: notFoundError_def)
  have t: "dataTruthy (dataOf notFoundPlatform Json ?r)" by code_simp
  have n: "nonJsonContentType ?r = None" by code_simp
  have j: "jsonStringify notFoundPlatform (dataOf notFoundPlatform Json ?r) = Some ''[1]''"
    by (simp add: notFoundPlatform_def)
  have s: "statusText notFoundError = ''Status: 404''" by code_simp
  have i: "strIncludes ''Status: 404, Data: [1]'' ''Status: 404''" by code_simp
  from C9_failure_detail [OF h1 h2 h3 rt [symmetric]] obtain detail where
    d1: "snd (executeApiCall notFoundPlatform (Some ''https://api.example.com'') getPet
               [(''petId'', JNum 7)]) = Inl (Error (''API call failed. '' @ detail))"
    and d2: "\<forall>r. err_response notFoundError = Some r \<longrightarrow>
              (dataTruthy (dataOf notFoundPlatform Json r) \<longrightarrow>
                 (nonJsonContentType r = None \<longrightarrow>
                    (\<forall>js. jsonStringify notFoundPlatform (dataOf notFoundPlatform Json r) = Some js \<longrightarrow>
                       detail = statusText notFoundError @ '', Data: '' @ js)))"
    by blast
  from d2 r t n j have "detail = statusText notFoundError @ '', Data: '' @ ''[1]''" by blast
  with s have "detail = ''Status: 404, Data: [1]''" by simp
  with d1 h2 h3 i show ?thesis by simp
qed

text \<open>Claim C9, counterexample: a 404 with an empty \<open>text/html\<close> body. The response data
  is falsy, so the detail is \<open>Status: 404\<close> alone: it holds neither the upstream content
  type nor a stringified body.\<close>

theorem C9_empty_body_counterexample:
  "nonJsonContentType \<lparr>resp_status = 404, resp_headers = [(''content-type'', ''text/html'')],
                         resp_body = []\<rparr> = Some ''text/html'' \<and>
   snd (executeApiCall emptyNotFoundPlatform (Some ''https://api.example.com'') getPet
          [(''petId'', JNum 7)])
     = Inl (Error ''API call failed. Status: 404'')"
  by code_simp


text \<open>The body of the loop throws only for a required parameter whose looked-up argument
  is \<open>undefined\<close>.\<close>

lemma missing_only_when_undefined:
  "processParam env mcpArgs p st = Inl e \<Longrightarrow>
   argValue mcpArgs (p_name p) = JUndefined \<and> p_required p"
  by (simp add: processParam_throws missingRequired_def)





text \<open>What the loop body does with a string given for a body parameter of binary
  format, by what \<open>Buffer.from(value, 'base64')\<close> does.\<close>

lemma binary_body_decoded:
  assumes "argValue mcpArgs (p_name p) = JStr s" and "p_in p = Some ''body''"
      and "isBinarySchema (p_schema p)" and "bufferFromBase64 env s = Some bytes"
  shows "processParam env mcpArgs p st =
           Inr (st\<lparr>cs_requestBody := Buffer bytes,
                   cs_headers := objSet (cs_headers st) ''Content-Type'' ''application/octet-stream''\<rparr>)"
  using assms by (simp add: processParam_def Let_def)

lemma binary_body_decode_throws:
  assumes "argValue mcpArgs (p_name p) = JStr s" and "p_in p = Some ''body''"
      and "isBinarySchema (p_schema p)" and "bufferFromBase64 env s = None"
  shows "processParam env mcpArgs p st =
           Inr (st\<lparr>cs_requestBody := Value (JStr s),
                   cs_headers := objSet (cs_headers st) ''Content-Type'' ''application/octet-stream'',
                   cs_log := cs_log st @
                     [Warn (''Failed to decode base64 for parameter '' @ p_name p @
                            ''. Sending as string.'')]\<rparr>)"
  using assms by (simp add: processParam_def Let_def)

definition fileParam :: MCPParameter where
  "fileParam = \<lparr>p_name = ''requestBody'', p_description = Some ''The request body.'',
     p_type = JStr ''string'', p_required = True,
     p_schema = JObj [(''type'', JStr ''string''), (''format'', JStr ''binary'')],
     p_in = Some ''body''\<rparr>"

definition uploadFile :: OriginalOperationDetails where
  "uploadFile = \<lparr>od_method = ''POST'', od_path = ''/upload'', od_parameters = [fileParam],
     od_consumes = Some [''application/octet-stream''],
     od_produces = Some [''application/json'']\<rparr>"

text \<open>
  Claim C4, at the input \<open>!!!\<close>, which is not base64. \<open>Buffer.from(value, 'base64')\<close>
  throws on no string (it skips the characters outside the alphabet): it is a total
  function \<open>decode\<close>. Then the request carries the buffer \<open>decode ''!!!''\<close>, not the string
  \<open>!!!\<close>, and no warning is logged: the \<open>catch\<close> branch is never taken.
\<close>

theorem C4_invalid_base64_is_sent_decoded:
  "requestsOf (fst (executeApiCall (quietPlatform\<lparr>bufferFromBase64 := \<lambda>s. Some (decode s)\<rparr>)
                      (Some ''https://api.example.com'') uploadFile
                      [(''requestBody'', JStr ''!!!'')]))
     = [\<lparr>cfg_method = ''POST'', cfg_url = ''https://api.example.com/upload'',
         cfg_headers = [(''Accept'', ''application/json''),
                        (''Content-Type'', ''application/octet-stream'')],
         cfg_params = [], cfg_data = Buffer (decode ''!!!''), cfg_responseType = Json\<rparr>] \<and>
   warningsOf (fst (executeApiCall (quietPlatform\<lparr>bufferFromBase64 := \<lambda>s. Some (decode s)\<rparr>)
                      (Some ''https://api.example.com'') uploadFile
                      [(''requestBody'', JStr ''!!!'')])) = []"
  by code_simp

section \<open>Properties of the adapter\<close>
























































section \<open>Further properties of the request executor\<close>

text \<open>
  With a base URL configured and no required parameter missing, a call issues exactly
  one HTTP request, whatever the upstream answers.
\<close>

lemma one_request_per_call:
  assumes "base \<noteq> []" and "find (missingRequired mcpArgs) (od_parameters od) = None"
  shows "\<exists>c. requestsOf (fst (executeApiCall env (Some base) od mcpArgs)) = [c]"
proof -
  from loop_completes [OF assms(2)] obtain st where
    "forEachS (processParam env mcpArgs) (od_parameters od) (initialState od) = (st, None)"
    by blast
  from sendRequest_requests [OF this] assms(1) show ?thesis
    by (simp add: executeApiCall_configured)
qed

lemma one_request_per_call_example:
  "''https://api.example.com'' \<noteq> [] \<and>
   find (missingRequired [(''petId'', JNum 7)]) (od_parameters getPet) = None \<and>
   (\<exists>c. requestsOf (fst (executeApiCall notFoundPlatform (Some ''https://api.example.com'')
                            getPet [(''petId'', JNum 7)])) = [c])"
proof -
  have h1: "''https://api.example.com'' \<noteq> []" by simp
  have h2: "find (missingRequired [(''petId'', JNum 7)]) (od_parameters getPet) = None"
    by code_simp
  from one_request_per_call [OF h1 h2] h1 h2 show ?thesis by blast
qed

text \<open>
  When the \<open>Accept\<close> header of the request is empty or, lower-cased, holds \<open>json\<close> or
  \<open>*/*\<close>, a successful call returns the parsed body as it is.
\<close>

lemma json_mode_returns_parsed_body:
  assumes "base \<noteq> []"
      and "forEachS (processParam env mcpArgs) (od_parameters od) (initialState od) = (st, None)"
      and "isJsonExpected (cfg_headers (buildConfig base od st))"
      and "axios env (buildConfig base od st) = Inr response"
  shows "snd (executeApiCall env (Some base) od mcpArgs) = Inr (parseBody env (resp_body response))"
proof -
  from assms(3) have "cfg_responseType (buildConfig base od st) = Json"
    by (simp add: responseType_of_config headers_of_config)
  with sendRequest_success [OF assms(2) assms(4)] assms(1) show ?thesis
    by (simp add: executeApiCall_configured)
qed

lemma json_mode_returns_parsed_body_example:
  "forEachS (processParam quietPlatform [(''petId'', JNum 7)]) (od_parameters getPet)
     (initialState getPet) = (petState, None) \<and>
   isJsonExpected (cfg_headers (buildConfig ''https://api.example.com'' getPet petState)) \<and>
   snd (executeApiCall quietPlatform (Some ''https://api.example.com'') getPet
          [(''petId'', JNum 7)]) = Inr JNull"
proof -
  let ?cfg = "buildConfig ''https://api.example.com'' getPet petState"
  have h1: "''https://api.example.com'' \<noteq> []" by simp
  have h2: "forEachS (processParam quietPlatform [(''petId'', JNum 7)]) (od_parameters getPet)
     (initialState getPet) = (petState, None)" by code_simp
  have h3: "isJsonExpected (cfg_headers ?cfg)" by code_simp
  have h4: "axios quietPlatform ?cfg = Inr \<lparr>resp_status = 200, resp_headers = [], resp_body = []\<rparr>"
    by (simp add: quietPlatform_def)
  have p: "parseBody quietPlatform [] = JNull" by (simp add: quietPlatform_def)
  from json_mode_returns_parsed_body [OF h1 h2 h3 h4] h2 h3 p show ?thesis by simp
qed

end
